theory Spec2Isabelle
  imports Complex_Main "HOL-Library.Word"
begin

unbundle bit_operations_syntax

section \<open>Data model\<close>

text \<open>
  An image is a NumPy array of shape (rows, columns, 3) with \<open>uint8\<close> channels: a list
  of rows, each a list of pixels, each pixel three bytes (blue-green-red, or
  hue-saturation-value after conversion). A mask is a single-channel \<open>uint8\<close> array
  holding 255 (on) or 0 (off). An HSV bound is a Python tuple of three unbounded ints.
\<close>

type_synonym pixel = "8 word \<times> 8 word \<times> 8 word"
type_synonym image = "pixel list list"
type_synonym mask = "8 word list list"
type_synonym hsv = "int \<times> int \<times> int"

text \<open>
  Every \<open>assert\<close> of \<open>contours.py\<close> raises \<open>AssertionError\<close> with a message of its
  own; the constructor of \<open>assertion\<close> names the message. The other errors are the
  Python exceptions the modelled paths can raise; \<open>CvError\<close> is an exception raised by
  the vision library itself.
\<close>

datatype assertion =
  HueRange | SaturationRange | ValueRange | SaturationOrder | ValueOrder | ColorChannel

datatype error =
  AssertionError assertion | IndexError | TypeError | AttributeError | CvError

text \<open>
  The primitives of the vision library that the code calls and whose result is not
  fixed by the claims are parameters of the model: colour conversion (which may raise,
  for instance on an empty image), contour extraction, contour area, contour drawing
  (it returns the image afterwards and the exception raised, if any) and rectangle
  drawing. \<open>'c\<close> is the type of a contour.
\<close>

record 'c cv2 =
  cvtColor :: "image \<Rightarrow> error + image"
  findContours :: "mask \<Rightarrow> 'c list"
  contourArea :: "'c \<Rightarrow> real"
  drawContours :: "image \<Rightarrow> 'c option list \<Rightarrow> int \<Rightarrow> int list \<Rightarrow> int \<Rightarrow> image \<times> error option"
  rectangle :: "image \<Rightarrow> int \<times> int \<Rightarrow> int \<times> int \<Rightarrow> int \<times> int \<times> int \<Rightarrow> int \<Rightarrow> image"

section \<open>contours.py\<close>

subsection \<open>Range masks\<close>

text \<open>
  \<open>cv.inRange(src, lowerb, upperb)\<close>: a pixel is on (255) when every channel lies
  between the bounds, both ends included, and off (0) otherwise. The bounds are
  compared as integers, so a bound above 255 or below 0 is simply never reached by a
  byte. \<open>cv.bitwise_or\<close> combines two masks of the same shape element by element.
\<close>

fun in_range :: "pixel \<Rightarrow> hsv \<Rightarrow> hsv \<Rightarrow> bool" where
  "in_range (h, s, v) (lh, ls, lv) (uh, us, uv) =
     (lh \<le> uint h \<and> uint h \<le> uh \<and> ls \<le> uint s \<and> uint s \<le> us \<and> lv \<le> uint v \<and> uint v \<le> uv)"

definition inRange :: "image \<Rightarrow> hsv \<Rightarrow> hsv \<Rightarrow> mask" where
  "inRange src lowerb upperb = map (map (\<lambda>p. if in_range p lowerb upperb then 255 else 0)) src"

definition bitwise_or :: "mask \<Rightarrow> mask \<Rightarrow> mask" where
  "bitwise_or src1 src2 = map2 (map2 (OR)) src1 src2"

subsection \<open>find_contours\<close>

text \<open>
  The five assertions of \<open>find_contours\<close>, in the order of the source. The third one
  carries the message about the value channel and, like the first, reads index 0 of
  both bounds.
\<close>

fun check_bounds :: "hsv \<Rightarrow> hsv \<Rightarrow> error option" where
  "check_bounds (lh, ls, lv) (uh, us, uv) =
     (if \<not> (0 \<le> lh \<and> lh \<le> 179 \<and> 0 \<le> uh \<and> uh \<le> 179) then Some (AssertionError HueRange)
      else if \<not> (0 \<le> ls \<and> ls \<le> 255 \<and> 0 \<le> us \<and> us \<le> 255) then Some (AssertionError SaturationRange)
      else if \<not> (0 \<le> lh \<and> lh \<le> 255 \<and> 0 \<le> uh \<and> uh \<le> 255) then Some (AssertionError ValueRange)
      else if \<not> ls \<le> us then Some (AssertionError SaturationOrder)
      else if \<not> lv \<le> uv then Some (AssertionError ValueOrder)
      else None)"

text \<open>The local variable \<open>mask\<close>: one range, or two ranges merged when the hue wraps.\<close>

fun build_mask :: "image \<Rightarrow> hsv \<Rightarrow> hsv \<Rightarrow> mask" where
  "build_mask hsv_image (lh, ls, lv) (uh, us, uv) =
     (if lh \<le> uh then inRange hsv_image (lh, ls, lv) (uh, us, uv)
      else bitwise_or (inRange hsv_image (lh, ls, lv) (255, us, uv))
                      (inRange hsv_image (0, ls, lv) (uh, us, uv)))"

definition find_contours :: "'c cv2 \<Rightarrow> image \<Rightarrow> hsv \<Rightarrow> hsv \<Rightarrow> error + 'c list" where
  "find_contours cv color_image hsv_lower hsv_upper =
     (case check_bounds hsv_lower hsv_upper of
        Some e \<Rightarrow> Inl e
      | None \<Rightarrow>
          (case cvtColor cv color_image of
             Inl e \<Rightarrow> Inl e
           | Inr hsv_image \<Rightarrow> Inr (findContours cv (build_mask hsv_image hsv_lower hsv_upper))))"

subsection \<open>get_largest_contour\<close>

text \<open>
  Python's \<open>max(contours, key=f)\<close> walks the list once and replaces the element it
  holds only when a later key is strictly greater: it returns the first maximal
  element. The area is a float; only its order is used, so the key may have any
  linearly ordered type.
\<close>

fun py_max :: "('c \<Rightarrow> 'a::linorder) \<Rightarrow> 'c \<Rightarrow> 'c list \<Rightarrow> 'c" where
  "py_max key best [] = best"
| "py_max key best (x # xs) = py_max key (if key best < key x then x else best) xs"

definition get_largest_contour :: "('c \<Rightarrow> 'a::linorder) \<Rightarrow> 'c list \<Rightarrow> 'a \<Rightarrow> 'c option" where
  "get_largest_contour area contours min_area =
     (case contours of
        [] \<Rightarrow> None
      | c # cs \<Rightarrow>
          (let greatest_contour = py_max area c cs
           in if area greatest_contour < min_area then None else Some greatest_contour))"

subsection \<open>draw_contour\<close>

text \<open>
  The loop over the channels of \<open>color\<close> asserts each one in turn and runs to its end
  before anything is drawn. The image is mutated in place by the library; the model
  returns the image as it is after the call, together with the exception raised.
\<close>

fun check_color :: "int list \<Rightarrow> error option" where
  "check_color [] = None"
| "check_color (channel # rest) =
     (if 0 \<le> channel \<and> channel \<le> 255 then check_color rest
      else Some (AssertionError ColorChannel))"

definition draw_contour :: "'c cv2 \<Rightarrow> image \<Rightarrow> 'c option \<Rightarrow> int list \<Rightarrow> image \<times> error option" where
  "draw_contour cv color_image contour color =
     (case check_color color of
        Some e \<Rightarrow> (color_image, Some e)
      | None \<Rightarrow> drawContours cv color_image [contour] 0 color 3)"

section \<open>color_finder.py\<close>

subsection \<open>The session\<close>

text \<open>
  The attributes of a \<open>ColorFinder\<close>. \<open>hsv_image\<close> is \<open>None\<close> until a region has been
  selected. \<open>current_hsv_range\<close> starts as the empty list (here \<open>None\<close>, length 0) and
  is otherwise a pair of bounds (length 2). Python stores whatever object is passed as
  \<open>hue_range\<close>, so its type is a parameter.
\<close>

record 'h session =
  image_bgr :: image
  cache :: image
  hsv_image :: "image option"
  hue_range :: 'h
  current_hsv_range :: "(hsv \<times> hsv) option"
  mouse_x :: int
  mouse_y :: int
  drawing :: bool

text \<open>
  \<open>__init__(self, path, hue_range)\<close>. \<open>loaded\<close> is what \<open>cv2.imread(path)\<close> returned:
  \<open>None\<close> when the file cannot be read, and then \<open>self.image.copy()\<close> raises.
\<close>

definition ColorFinder_init :: "image option \<Rightarrow> 'h \<Rightarrow> error + 'h session" where
  "ColorFinder_init loaded hue_range_arg =
     (case loaded of
        None \<Rightarrow> Inl AttributeError
      | Some img \<Rightarrow>
          Inr \<lparr> image_bgr = img, cache = img, hsv_image = None, hue_range = hue_range_arg,
                current_hsv_range = None, mouse_x = 0, mouse_y = 0, drawing = False \<rparr>)"

text \<open>
  A call \<open>ColorFinder(path, hue_range, *extra)\<close>: the constructor declares two
  parameters besides \<open>self\<close> and none of them has a default, so Python raises
  \<open>TypeError\<close> for any further positional argument before the body runs.
\<close>

definition ColorFinder_call :: "(string \<Rightarrow> image option) \<Rightarrow> string \<Rightarrow> 'h \<Rightarrow> 'x list \<Rightarrow> error + 'h session" where
  "ColorFinder_call imread path hue_range_arg extra =
     (if extra \<noteq> [] then Inl TypeError else ColorFinder_init (imread path) hue_range_arg)"

subsection \<open>crop_image\<close>

text \<open>
  A Python slice \<open>xs[i:j]\<close>: a negative index counts from the end, then both indices
  are clamped to the length, and the slice is empty when the stop is not after the
  start. \<open>a[r0:r1, c0:c1]\<close> on an array slices the rows, then each row.
\<close>

definition slice_index :: "nat \<Rightarrow> int \<Rightarrow> nat" where
  "slice_index n k = (if k < 0 then nat (max 0 (k + int n)) else min (nat k) n)"

definition py_slice :: "'a list \<Rightarrow> int \<Rightarrow> int \<Rightarrow> 'a list" where
  "py_slice xs i j =
     (let a = slice_index (length xs) i; b = slice_index (length xs) j
      in take (b - a) (drop a xs))"

definition np_slice :: "image \<Rightarrow> int \<Rightarrow> int \<Rightarrow> int \<Rightarrow> int \<Rightarrow> image" where
  "np_slice a r0 r1 c0 c1 = map (\<lambda>row. py_slice row c0 c1) (py_slice a r0 r1)"

datatype mouse_event = EVENT_MOUSEMOVE | EVENT_LBUTTONDOWN | EVENT_LBUTTONUP | EVENT_OTHER

text \<open>
  The mouse callback. It returns the session afterwards and the exception raised, if
  any: on release the source image has already been replaced by the crop when the
  colour conversion of the crop fails.
\<close>

fun crop_image :: "'c cv2 \<Rightarrow> mouse_event \<Rightarrow> int \<Rightarrow> int \<Rightarrow> 'h session \<Rightarrow> 'h session \<times> error option" where
  "crop_image cv EVENT_LBUTTONDOWN x y self =
     (self\<lparr>drawing := True, mouse_x := x, mouse_y := y\<rparr>, None)"
| "crop_image cv EVENT_MOUSEMOVE x y self =
     (if drawing self
      then (self\<lparr>cache := rectangle cv (cache self) (mouse_x self, mouse_y self) (x, y) (0, 255, 0) 2\<rparr>, None)
      else (self, None))"
| "crop_image cv EVENT_LBUTTONUP x y self =
     (let marked = rectangle cv (image_bgr self) (mouse_x self, mouse_y self) (x, y) (0, 255, 255) 2;
          cropped =
            (if y < mouse_y self
             then np_slice marked (y + 3) (mouse_y self - 3) (x + 3) (mouse_x self - 3)
             else np_slice marked (mouse_y self + 3) (y - 3) (mouse_x self + 3) (x - 3));
          self1 = self\<lparr>drawing := False, image_bgr := cropped\<rparr>
      in case cvtColor cv cropped of
           Inl e \<Rightarrow> (self1, Some e)
         | Inr converted \<Rightarrow> (self1\<lparr>hsv_image := Some converted\<rparr>, None))"
| "crop_image cv EVENT_OTHER x y self = (self, None)"

subsection \<open>get_hsv_range\<close>

text \<open>Indexing a sequence with a non-negative index; out of range raises.\<close>

definition py_index :: "'a list \<Rightarrow> nat \<Rightarrow> error + 'a" where
  "py_index xs i = (if i < length xs then Inr (xs ! i) else Inl IndexError)"

text \<open>
  The test of the inner loop, \<open>row[0] >= hue_range[0] and row[0] <= hue_range[1]\<close>:
  the second index is read only when the first comparison holds. In the source the
  outer loop variable \<open>col\<close> is a row of the image and the inner one, \<open>row\<close>, a pixel.
\<close>

definition qualifies :: "int list \<Rightarrow> pixel \<Rightarrow> error + bool" where
  "qualifies hr row =
     (case py_index hr 0 of
        Inl e \<Rightarrow> Inl e
      | Inr lo \<Rightarrow>
          if lo \<le> uint (fst row)
          then (case py_index hr 1 of Inl e \<Rightarrow> Inl e | Inr hi \<Rightarrow> Inr (uint (fst row) \<le> hi))
          else Inr False)"

type_synonym outputs = "8 word list \<times> 8 word list \<times> 8 word list"

fun scan_col :: "int list \<Rightarrow> pixel list \<Rightarrow> outputs \<Rightarrow> error + outputs" where
  "scan_col hr [] out = Inr out"
| "scan_col hr (row # rest) (output_h, output_s, output_v) =
     (case qualifies hr row of
        Inl e \<Rightarrow> Inl e
      | Inr q \<Rightarrow>
          scan_col hr rest
            (if q then (output_h @ [fst row], output_s @ [fst (snd row)], output_v @ [snd (snd row)])
             else (output_h, output_s, output_v)))"

fun scan_image :: "int list \<Rightarrow> image \<Rightarrow> outputs \<Rightarrow> error + outputs" where
  "scan_image hr [] out = Inr out"
| "scan_image hr (col # rest) out =
     (case scan_col hr col out of
        Inl e \<Rightarrow> Inl e
      | Inr out' \<Rightarrow> scan_image hr rest out')"

text \<open>What the program writes to the console, and what it shows in its window.\<close>

datatype event = Printed string | PrintedRange "hsv \<times> hsv" | Shown image

text \<open>
  \<open>get_hsv_range\<close> returns the range and what it printed. Iterating over
  \<open>hsv_image\<close> while it is still \<open>None\<close> raises \<open>TypeError\<close>.
\<close>

definition get_hsv_range :: "int list session \<Rightarrow> error + ((hsv \<times> hsv) \<times> event list)" where
  "get_hsv_range self =
     (case hsv_image self of
        None \<Rightarrow> Inl TypeError
      | Some img \<Rightarrow>
          (case scan_image (hue_range self) img ([], [], []) of
             Inl e \<Rightarrow> Inl e
           | Inr (output_h, output_s, output_v) \<Rightarrow>
               if length output_h < 1
               then Inr (((0, 0, 0), (0, 0, 0)), [Printed ''Invalid expected hsv range. Try again''])
               else
                 (let sorted_h = sort output_h; sorted_s = sort output_s; sorted_v = sort output_v
                  in Inr (((uint (hd sorted_h), uint (hd sorted_s), uint (hd sorted_v)),
                           (uint (last sorted_h), uint (last sorted_s), uint (last sorted_v))), []))))"

subsection \<open>refresh and the frame loop\<close>

text \<open>
  The contour pipeline of one frame, run when a region has been selected: estimate the
  range unless one is already held, print it, find the contours of the display copy,
  pick the largest and draw it. An exception ends the frame (and the program) where it
  is raised, with the session as it is then.
\<close>

definition refresh_pipeline :: "'c cv2 \<Rightarrow> int list session \<Rightarrow> int list session \<times> event list \<times> error option" where
  "refresh_pipeline cv self =
     (case (case current_hsv_range self of
              Some r \<Rightarrow> Inr (r, [])
            | None \<Rightarrow> get_hsv_range self) of
        Inl e \<Rightarrow> (self, [], Some e)
      | Inr (r, printed) \<Rightarrow>
          (let self1 = self\<lparr>current_hsv_range := Some r\<rparr>;
               out = printed @ [PrintedRange r]
           in case find_contours cv (cache self1) (fst r) (snd r) of
                Inl e \<Rightarrow> (self1, out, Some e)
              | Inr list_contours \<Rightarrow>
                  (let lg_contour = get_largest_contour (contourArea cv) list_contours 30;
                       drawn = draw_contour cv (cache self1) lg_contour [0, 255, 0]
                   in (self1\<lparr>cache := fst drawn\<rparr>, out, snd drawn))))"

text \<open>
  \<open>cv2.waitKey\<close> is where the window system delivers the mouse events that are
  pending: the callback runs once for each, and an exception raised inside a callback
  is reported by the library and not propagated.
\<close>

fun dispatch :: "'c cv2 \<Rightarrow> (mouse_event \<times> int \<times> int) list \<Rightarrow> 'h session \<Rightarrow> 'h session" where
  "dispatch cv [] self = self"
| "dispatch cv ((ev, x, y) # rest) self = dispatch cv rest (fst (crop_image cv ev x y self))"

text \<open>
  One frame. \<open>pending\<close> are the mouse events delivered during this frame's
  \<open>waitKey\<close> and \<open>key\<close> is the key code it returns; \<open>ord('q')\<close> is 113. The result is
  the session, the output, and either the exception raised or the value returned.
\<close>

definition refresh :: "'c cv2 \<Rightarrow> (mouse_event \<times> int \<times> int) list \<Rightarrow> int \<Rightarrow> int list session \<Rightarrow> int list session \<times> event list \<times> (error + bool)" where
  "refresh cv pending key self =
     (let shown = [Shown (cache self)];
          self1 = self\<lparr>cache := image_bgr self\<rparr>;
          piped = (if hsv_image self1 \<noteq> None then refresh_pipeline cv self1 else (self1, [], None))
      in case piped of
           (self2, out, Some e) \<Rightarrow> (self2, shown @ out, Inl e)
         | (self2, out, None) \<Rightarrow> (dispatch cv pending self2, shown @ out, Inr (key \<noteq> 113)))"

text \<open>
  The loop \<open>while(running): running = color_finder.refresh()\<close> over the frames for
  which input is given. It stops at an exception or when \<open>refresh\<close> returns \<open>False\<close>.
\<close>

fun run :: "'c cv2 \<Rightarrow> ((mouse_event \<times> int \<times> int) list \<times> int) list \<Rightarrow> int list session \<Rightarrow> int list session \<times> event list \<times> error option" where
  "run cv [] self = (self, [], None)"
| "run cv ((pending, key) # frames) self =
     (case refresh cv pending key self of
        (self1, out, Inl e) \<Rightarrow> (self1, out, Some e)
      | (self1, out, Inr False) \<Rightarrow> (self1, out, None)
      | (self1, out, Inr True) \<Rightarrow>
          (case run cv frames self1 of (self2, out2, r) \<Rightarrow> (self2, out @ out2, r)))"

text \<open>
  The module itself constructs a finder when it is loaded:
  \<open>ColorFinder("resources/purpleLine2.png", (110, 150))\<close>, with two arguments.
\<close>

definition module_color_finder :: "(string \<Rightarrow> image option) \<Rightarrow> error + int list session" where
  "module_color_finder imread =
     ColorFinder_call imread ''resources/purpleLine2.png'' [110, 150] ([] :: bool list)"

section \<open>main.py\<close>

definition IMAGE_PATH :: string where
  "IMAGE_PATH = ''resources/example.png''"

definition EXPECTED_HUE_RANGE :: "int list" where
  "EXPECTED_HUE_RANGE = [40, 80]"

definition HSV_RANGE :: "hsv list" where
  "HSV_RANGE = [(40, 50, 150), (80, 255, 255)]"

text \<open>
  The two constructor calls of the entry point: each passes the path, a range and the
  flag \<open>MANUAL\<close> as a third positional argument.
\<close>

definition main_manual :: "(string \<Rightarrow> image option) \<Rightarrow> error + hsv list session" where
  "main_manual imread = ColorFinder_call imread IMAGE_PATH HSV_RANGE [True]"

definition main_estimate :: "(string \<Rightarrow> image option) \<Rightarrow> error + int list session" where
  "main_estimate imread = ColorFinder_call imread IMAGE_PATH EXPECTED_HUE_RANGE [False]"

section \<open>Vocabulary of the specification and concrete instances\<close>

text \<open>
  The pixels of an HSV image that qualify for a hue interval, in scan order, as the
  specification words it: those whose hue lies in the interval, both ends included.
\<close>

definition qualifying_pixels :: "int \<Rightarrow> int \<Rightarrow> image \<Rightarrow> pixel list" where
  "qualifying_pixels hueLow hueHigh img =
     filter (\<lambda>p. hueLow \<le> uint (fst p) \<and> uint (fst p) \<le> hueHigh) (concat img)"

text \<open>
  A stand-in for the vision library, used to evaluate the model on concrete inputs:
  conversion keeps the three bytes of every pixel, every mask has one contour, of
  area 100, and drawing leaves the image as it is.
\<close>

definition demo_cv :: "unit cv2" where
  "demo_cv =
     \<lparr> cvtColor = Inr, findContours = (\<lambda>m. [()]), contourArea = (\<lambda>c. 100),
       drawContours = (\<lambda>img cs i col t. (img, None)), rectangle = (\<lambda>img p q col t. img) \<rparr>"

text \<open>The channels of an HSV pixel, read as integers.\<close>

definition chan_h :: "pixel \<Rightarrow> int" where
  "chan_h p = uint (fst p)"

definition chan_s :: "pixel \<Rightarrow> int" where
  "chan_s p = uint (fst (snd p))"

definition chan_v :: "pixel \<Rightarrow> int" where
  "chan_v p = uint (snd (snd p))"

text \<open>
  A session whose selected region has four pixels, two of them with a hue in the
  expected interval [90, 110], and no range yet.
\<close>

definition demo_session :: "int list session" where
  "demo_session =
     \<lparr> image_bgr = [], cache = [],
       hsv_image = Some [[(100, 50, 200), (20, 0, 255)], [(105, 150, 80), (200, 9, 9)]],
       hue_range = [90, 110], current_hsv_range = None, mouse_x = 0, mouse_y = 0,
       drawing = False \<rparr>"

text \<open>
  A session that already holds the range estimated from an earlier selection, a single
  pixel (20, 20, 20), on a uniform 7 by 7 image of pixels (100, 100, 100).
\<close>

definition cached_session :: "int list session" where
  "cached_session =
     \<lparr> image_bgr = replicate 7 (replicate 7 (100, 100, 100)),
       cache = replicate 7 (replicate 7 (100, 100, 100)),
       hsv_image = Some [[(20, 20, 20)]],
       hue_range = [0, 179], current_hsv_range = Some ((20, 20, 20), (20, 20, 20)),
       mouse_x = 0, mouse_y = 0, drawing = False \<rparr>"

section \<open>Properties of find_contours\<close>

lemma map2_same_source:
  "map2 f (map g xs) (map h xs) = map (\<lambda>x. f (g x) (h x)) xs"
  by (induction xs) simp_all

lemma bitwise_or_inRange:
  "bitwise_or (inRange src l1 u1) (inRange src l2 u2) =
     map (map (\<lambda>p. (if in_range p l1 u1 then 255 else 0) OR (if in_range p l2 u2 then 255 else 0))) src"
  by (simp add: bitwise_or_def inRange_def map2_same_source)

lemma uint_byte_le_255: "uint (w :: 8 word) \<le> 255"
  using uint_lt2p [of w] by simp

lemma or_mask_values:
  "(if a then 255 else 0) OR (if b then 255 else (0::8 word)) = (if a \<or> b then 255 else 0)"
  by simp

text \<open>
  The assertions pass exactly when both hues are in 0..179, both saturations are in
  0..255, and saturation and value are ordered. No bound on the value channels is part
  of it.
\<close>

lemma check_bounds_None_iff:
  "check_bounds (lh, ls, lv) (uh, us, uv) = None \<longleftrightarrow>
     (0 \<le> lh \<and> lh \<le> 179 \<and> 0 \<le> uh \<and> uh \<le> 179 \<and> 0 \<le> ls \<and> ls \<le> 255 \<and> 0 \<le> us \<and> us \<le> 255
      \<and> ls \<le> us \<and> lv \<le> uv)"
  by auto

text \<open>
  A bound that fails an assertion is rejected before the image is converted or read:
  the result is the assertion's error for every image and every library.
\<close>

lemma find_contours_rejects_first:
  "check_bounds hsv_lower hsv_upper = Some e \<Longrightarrow>
     find_contours cv color_image hsv_lower hsv_upper = Inl e"
  by (simp add: find_contours_def)

text \<open>
  Claim C1. For bounds that pass the assertions of \<open>find_contours\<close> and whose lower
  hue is strictly greater than the upper hue, the mask handed to the contour
  extraction has a pixel on exactly when its hue is at least the lower hue or at most
  the upper hue, and its saturation and value both lie between the bounds; and this
  mask is the element-wise OR of the two masks that the single-range branch builds for
  the hue bands [lower hue, 255] and [0, upper hue] with the same saturation and value
  bounds.
\<close>

theorem find_contours_wrap_mask:
  assumes pre: "check_bounds (lh, ls, lv) (uh, us, uv) = None"
    and wrap: "uh < lh"
    and conv: "cvtColor cv color_image = Inr hsv_img"
  shows "find_contours cv color_image (lh, ls, lv) (uh, us, uv) =
           Inr (findContours cv (build_mask hsv_img (lh, ls, lv) (uh, us, uv)))
       \<and> build_mask hsv_img (lh, ls, lv) (uh, us, uv) =
           map (map (\<lambda>(h, s, v).
             if (lh \<le> uint h \<or> uint h \<le> uh) \<and> ls \<le> uint s \<and> uint s \<le> us \<and> lv \<le> uint v \<and> uint v \<le> uv
             then 255 else 0)) hsv_img
       \<and> build_mask hsv_img (lh, ls, lv) (uh, us, uv) =
           bitwise_or (build_mask hsv_img (lh, ls, lv) (255, us, uv))
                      (build_mask hsv_img (0, ls, lv) (uh, us, uv))"
proof -
  have hue: "0 \<le> uh" "lh \<le> 255"
    using pre by (auto split: if_splits)
  have fc: "find_contours cv color_image (lh, ls, lv) (uh, us, uv) =
           Inr (findContours cv (build_mask hsv_img (lh, ls, lv) (uh, us, uv)))"
    unfolding find_contours_def using pre conv by simp
  have px: "\<And>p. ((if in_range p (lh, ls, lv) (255, us, uv) then 255 else 0) OR
                 (if in_range p (0, ls, lv) (uh, us, uv) then 255 else (0::8 word))) =
            (case p of (h, s, v) \<Rightarrow>
             if (lh \<le> uint h \<or> uint h \<le> uh) \<and> ls \<le> uint s \<and> uint s \<le> us \<and> lv \<le> uint v \<and> uint v \<le> uv
             then 255 else 0)"
  proof -
    fix p :: pixel
    obtain h s v where p: "p = (h, s, v)" by (cases p) auto
    show "?thesis p"
      using uint_byte_le_255 [of h] uint_ge_0 [of h]
      unfolding p or_mask_values by auto
  qed
  have m1: "build_mask hsv_img (lh, ls, lv) (uh, us, uv) =
           map (map (\<lambda>(h, s, v).
             if (lh \<le> uint h \<or> uint h \<le> uh) \<and> ls \<le> uint s \<and> uint s \<le> us \<and> lv \<le> uint v \<and> uint v \<le> uv
             then 255 else 0)) hsv_img"
    using wrap by (simp add: bitwise_or_inRange px)
  have m2: "build_mask hsv_img (lh, ls, lv) (uh, us, uv) =
           bitwise_or (build_mask hsv_img (lh, ls, lv) (255, us, uv))
                      (build_mask hsv_img (0, ls, lv) (uh, us, uv))"
    using wrap hue by simp
  from fc m1 m2 show ?thesis by blast
qed

text \<open>
  The scenario of the specification: bounds (170, 50, 50) and (10, 255, 255) on a row
  with hues 175, 5 and 90. The first two pixels are on, the third is off.
\<close>

theorem find_contours_wrap_mask_witness:
  "check_bounds (170, 50, 50) (10, 255, 255) = None
   \<and> cvtColor demo_cv [[(175, 100, 100), (5, 100, 100), (90, 100, 100)]] =
       Inr [[(175, 100, 100), (5, 100, 100), (90, 100, 100)]]
   \<and> build_mask [[(175, 100, 100), (5, 100, 100), (90, 100, 100)]] (170, 50, 50) (10, 255, 255) =
       [[255, 255, 0]]
   \<and> find_contours demo_cv [[(175, 100, 100), (5, 100, 100), (90, 100, 100)]]
       (170, 50, 50) (10, 255, 255) = Inr [()]"
proof -
  have pre: "check_bounds (170, 50, 50) (10, 255, 255) = None" by simp
  have wrap: "(10::int) < 170" by simp
  have conv: "cvtColor demo_cv [[(175, 100, 100), (5, 100, 100), (90, 100, 100)]] =
       Inr [[(175, 100, 100), (5, 100, 100), (90, 100, 100)]]"
    by (simp add: demo_cv_def)
  show ?thesis
    using find_contours_wrap_mask [OF pre wrap conv] pre conv
    by (simp add: demo_cv_def)
qed

text \<open>
  Claim C4. \<open>find_contours\<close> is to fail with an invalid-range error whenever the value
  channel of either bound is outside [0,255]. The assertion that carries the message
  about the value channel reads the hue (index 0) of both bounds instead of the value
  (index 2), so no assertion bounds the value channel: with lower bound (0, 0, 0) and
  upper bound (0, 0, 300) every assertion passes and the call goes on to convert the
  image and build the mask, whereas the same number in the saturation channel is
  rejected.
\<close>

theorem find_contours_value_unchecked:
  "check_bounds (0, 0, 0) (0, 0, 300) = None
   \<and> check_bounds (0, 0, - 5) (0, 0, 0) = None
   \<and> check_bounds (0, 0, 0) (0, 300, 0) = Some (AssertionError SaturationRange)
   \<and> find_contours cv color_image (0, 0, 0) (0, 0, 300) =
       (case cvtColor cv color_image of
          Inl e \<Rightarrow> Inl e
        | Inr hsv_img \<Rightarrow> Inr (findContours cv (inRange hsv_img (0, 0, 0) (0, 0, 300))))"
  by (simp add: find_contours_def split: sum.split)

section \<open>Properties of get_largest_contour\<close>

text \<open>
  \<open>py_max\<close> returns the first maximal element: everything before it has a strictly
  smaller key, nothing after it has a greater one.
\<close>

lemma py_max_first_maximal:
  "\<exists>ys m zs. best # xs = ys @ m # zs \<and> py_max key best xs = m
      \<and> (\<forall>y \<in> set ys. key y < key m) \<and> (\<forall>z \<in> set zs. key z \<le> key m)"
proof (induction xs arbitrary: best)
  case Nil
  have "[best] = [] @ best # []" by simp
  then show ?case by fastforce
next
  case (Cons x xs)
  show ?case
  proof (cases "key best < key x")
    case True
    from Cons.IH [of x] obtain ys m zs where s: "x # xs = ys @ m # zs" "py_max key x xs = m"
      "\<forall>y \<in> set ys. key y < key m" "\<forall>z \<in> set zs. key z \<le> key m" by blast
    have "x \<in> set (ys @ m # zs)" using s(1) by (metis list.set_intros(1))
    then have "key x \<le> key m" using s(3,4) by auto
    then have "\<forall>y \<in> set (best # ys). key y < key m" using True s(3) by auto
    moreover have "best # x # xs = (best # ys) @ m # zs" using s(1) by simp
    moreover have "py_max key best (x # xs) = m" using True s(2) by simp
    ultimately show ?thesis using s(4) by blast
  next
    case False
    from Cons.IH [of best] obtain ys m zs where s: "best # xs = ys @ m # zs" "py_max key best xs = m"
      "\<forall>y \<in> set ys. key y < key m" "\<forall>z \<in> set zs. key z \<le> key m" by blast
    have r: "py_max key best (x # xs) = m" using False s(2) by simp
    show ?thesis
    proof (cases ys)
      case Nil
      then have "best = m" "xs = zs" using s(1) by simp_all
      then have "best # x # xs = [] @ m # (x # zs)" "\<forall>z \<in> set (x # zs). key z \<le> key m"
        using False s(4) by auto
      then show ?thesis using r by (metis empty_iff list.set(1))
    next
      case (Cons y ys')
      then have e: "y = best" "xs = ys' @ m # zs" using s(1) by simp_all
      then have "key best < key m" using s(3) Cons by simp
      then have "\<forall>y \<in> set (best # x # ys'). key y < key m" using False s(3) Cons by auto
      moreover have "best # x # xs = (best # x # ys') @ m # zs" using e by simp
      ultimately show ?thesis using r s(4) by blast
    qed
  qed
qed

text \<open>
  Claim C3. \<open>get_largest_contour\<close> returns \<open>None\<close> for the empty list; \<open>None\<close> when
  the maximum area in the list is strictly less than \<open>min_area\<close>; and otherwise the
  contour at some index \<open>i\<close> whose area is the maximum and such that every contour
  before \<open>i\<close> has a strictly smaller area (the first maximal element in list order).
\<close>

theorem get_largest_contour_spec:
  "get_largest_contour area [] min_area = None
   \<and> (contours \<noteq> [] \<and> Max (area ` set contours) < min_area \<longrightarrow>
        get_largest_contour area contours min_area = None)
   \<and> (contours \<noteq> [] \<and> \<not> Max (area ` set contours) < min_area \<longrightarrow>
        (\<exists>i < length contours.
           get_largest_contour area contours min_area = Some (contours ! i)
           \<and> area (contours ! i) = Max (area ` set contours)
           \<and> (\<forall>j < i. area (contours ! j) < area (contours ! i))))"
proof (cases contours)
  case Nil
  then show ?thesis by (simp add: get_largest_contour_def)
next
  case (Cons c cs)
  obtain ys m zs where s: "c # cs = ys @ m # zs" "py_max area c cs = m"
      "\<forall>y \<in> set ys. area y < area m" "\<forall>z \<in> set zs. area z \<le> area m"
    using py_max_first_maximal [of c cs area] by blast
  have split: "contours = ys @ m # zs" using Cons s(1) by simp
  have mx: "Max (area ` set contours) = area m"
  proof (rule Max_eqI)
    show "finite (area ` set contours)" by simp
    show "area m \<in> area ` set contours" using split by simp
    fix a assume "a \<in> area ` set contours"
    then show "a \<le> area m" using split s(3,4) by auto
  qed
  have res: "get_largest_contour area contours min_area =
               (if area m < min_area then None else Some m)"
    using Cons s(2) by (simp add: get_largest_contour_def)
  have idx: "length ys < length contours" "contours ! length ys = m"
    "\<forall>j < length ys. area (contours ! j) < area (contours ! length ys)"
    using split s(3) by (auto simp: nth_append)
  have "get_largest_contour area [] min_area = None"
    by (simp add: get_largest_contour_def)
  moreover have "contours \<noteq> [] \<and> Max (area ` set contours) < min_area \<longrightarrow>
        get_largest_contour area contours min_area = None"
    using res mx by simp
  moreover have "contours \<noteq> [] \<and> \<not> Max (area ` set contours) < min_area \<longrightarrow>
        (\<exists>i < length contours.
           get_largest_contour area contours min_area = Some (contours ! i)
           \<and> area (contours ! i) = Max (area ` set contours)
           \<and> (\<forall>j < i. area (contours ! j) < area (contours ! i)))"
    using res mx idx by auto
  ultimately show ?thesis by blast
qed

text \<open>
  Four named contours with areas 3, 7, 7 and 2: with threshold 5 the first of the two
  largest is returned, with threshold 8 nothing is.
\<close>

theorem get_largest_contour_spec_witness:
  "[(''a'', 3), (''b'', 7), (''c'', 7), (''d'', 2 :: nat)] \<noteq> []
   \<and> \<not> Max (snd ` set [(''a'', 3), (''b'', 7), (''c'', 7), (''d'', 2 :: nat)]) < 5
   \<and> get_largest_contour snd [(''a'', 3), (''b'', 7), (''c'', 7), (''d'', 2 :: nat)] 5 = Some (''b'', 7)
   \<and> Max (snd ` set [(''a'', 3), (''b'', 7), (''c'', 7), (''d'', 2 :: nat)]) < 8
   \<and> get_largest_contour snd [(''a'', 3), (''b'', 7), (''c'', 7), (''d'', 2 :: nat)] 8 = None"
  using get_largest_contour_spec [of snd 5 "[(''a'', 3), (''b'', 7), (''c'', 7), (''d'', 2 :: nat)]"]
    get_largest_contour_spec [of snd 8 "[(''a'', 3), (''b'', 7), (''c'', 7), (''d'', 2 :: nat)]"]
  by (simp add: get_largest_contour_def)

section \<open>Properties of draw_contour\<close>

lemma check_color_Some:
  "(\<exists>channel \<in> set color. channel < 0 \<or> 255 < channel) \<Longrightarrow>
     check_color color = Some (AssertionError ColorChannel)"
  by (induction color) auto

lemma check_color_None:
  "(\<forall>channel \<in> set color. 0 \<le> channel \<and> channel \<le> 255) \<Longrightarrow> check_color color = None"
  by (induction color) auto

text \<open>
  Claim C5. If some channel of the colour is outside [0,255], \<open>draw_contour\<close> fails
  with the invalid-colour assertion and the image after the call is the image before
  it, whatever the drawing primitive of the library would have done.
\<close>

theorem draw_contour_rejects_color:
  assumes "\<exists>channel \<in> set color. channel < 0 \<or> 255 < channel"
  shows "draw_contour cv color_image contour color = (color_image, Some (AssertionError ColorChannel))"
  using check_color_Some [OF assms] by (simp add: draw_contour_def)

theorem draw_contour_rejects_color_witness:
  "(\<exists>channel \<in> set [0, 256, 0]. channel < 0 \<or> 255 < (channel :: int))
   \<and> draw_contour demo_cv [[(1, 2, 3)]] (Some ()) [0, 256, 0] =
       ([[(1, 2, 3)]], Some (AssertionError ColorChannel))"
proof -
  have h: "\<exists>channel \<in> set [0, 256, 0]. channel < 0 \<or> 255 < (channel :: int)" by simp
  show ?thesis
    using draw_contour_rejects_color [OF h, of demo_cv "[[(1, 2, 3)]]" "Some ()"] h by blast
qed

section \<open>Properties of get_hsv_range\<close>

lemma qualifies_interval:
  "qualifies [lo, hi] row = Inr (lo \<le> uint (fst row) \<and> uint (fst row) \<le> hi)"
  by (simp add: qualifies_def py_index_def)

lemma scan_col_interval:
  "scan_col [lo, hi] col (oh, os, ov) =
     Inr (oh @ map fst (filter (\<lambda>p. lo \<le> uint (fst p) \<and> uint (fst p) \<le> hi) col),
          os @ map (\<lambda>p. fst (snd p)) (filter (\<lambda>p. lo \<le> uint (fst p) \<and> uint (fst p) \<le> hi) col),
          ov @ map (\<lambda>p. snd (snd p)) (filter (\<lambda>p. lo \<le> uint (fst p) \<and> uint (fst p) \<le> hi) col))"
  by (induction col arbitrary: oh os ov) (simp_all add: qualifies_interval)

lemma scan_image_interval:
  "scan_image [lo, hi] img (oh, os, ov) =
     Inr (oh @ map fst (qualifying_pixels lo hi img),
          os @ map (\<lambda>p. fst (snd p)) (qualifying_pixels lo hi img),
          ov @ map (\<lambda>p. snd (snd p)) (qualifying_pixels lo hi img))"
  by (induction img arbitrary: oh os ov) (simp_all add: scan_col_interval qualifying_pixels_def)

text \<open>After sorting, the first element is the minimum and the last one the maximum.\<close>

lemma hd_sort_Min: "xs \<noteq> [] \<Longrightarrow> hd (sort xs) = Min (set xs)"
proof -
  assume ne: "xs \<noteq> []"
  then have n: "sort xs \<noteq> []" by (metis length_sort length_0_conv)
  then obtain y ys where s: "sort xs = y # ys" by (cases "sort xs") auto
  have "sorted (y # ys)" "set (y # ys) = set xs"
    using sorted_sort [of xs] set_sort [of "\<lambda>x. x" xs] unfolding s by simp_all
  then have "Min (set xs) = y"
    by (intro Min_eqI) auto
  then show ?thesis using s by simp
qed

lemma last_sort_Max: "xs \<noteq> [] \<Longrightarrow> last (sort xs) = Max (set xs)"
proof -
  assume ne: "xs \<noteq> []"
  then have n: "sort xs \<noteq> []" by (metis length_sort length_0_conv)
  have srt: "sorted (sort xs)" and st: "set (sort xs) = set xs" by simp_all
  have "Max (set xs) = last (sort xs)"
  proof (rule Max_eqI)
    show "finite (set xs)" by simp
    show "last (sort xs) \<in> set xs" using last_in_set [OF n] st by simp
    fix y assume "y \<in> set xs"
    then obtain i where i: "i < length (sort xs)" "sort xs ! i = y"
      using st by (metis in_set_conv_nth)
    then have "sort xs ! i \<le> sort xs ! (length (sort xs) - 1)"
      using srt by (intro sorted_nth_mono) auto
    then show "y \<le> last (sort xs)" using i n by (simp add: last_conv_nth)
  qed
  then show ?thesis by simp
qed

text \<open>\<open>int(...)\<close> of a byte keeps the order, so it commutes with minimum and maximum.\<close>

lemma mono_uint: "mono (uint :: 8 word \<Rightarrow> int)"
  by (simp add: mono_def word_le_def)

lemma uint_Min_map:
  "ps \<noteq> [] \<Longrightarrow> uint (Min (f ` set ps)) = Min ((\<lambda>p. uint (f p :: 8 word)) ` set ps)"
  using mono_Min_commute [OF mono_uint, of "f ` set ps"] by (simp add: image_image)

lemma uint_Max_map:
  "ps \<noteq> [] \<Longrightarrow> uint (Max (f ` set ps)) = Max ((\<lambda>p. uint (f p :: 8 word)) ` set ps)"
  using mono_Max_commute [OF mono_uint, of "f ` set ps"] by (simp add: image_image)

lemma Min_le_Max_list: "ps \<noteq> [] \<Longrightarrow> Min (f ` set ps) \<le> (Max (f ` set ps) :: int)"
proof -
  assume "ps \<noteq> []"
  then obtain p where p: "p \<in> set ps" by (cases ps) auto
  have "Min (f ` set ps) \<le> f p" using p by simp
  also have "f p \<le> Max (f ` set ps)" using p by simp
  finally show ?thesis .
qed

text \<open>
  The result of \<open>get_hsv_range\<close> on a selected region and a two-element hue interval,
  in terms of the qualifying pixels.
\<close>

lemma get_hsv_range_interval:
  assumes "hsv_image self = Some img" and "hue_range self = [hueLow, hueHigh]"
  shows "get_hsv_range self =
     (let Q = qualifying_pixels hueLow hueHigh img
      in if Q = [] then Inr (((0, 0, 0), (0, 0, 0)), [Printed ''Invalid expected hsv range. Try again''])
         else Inr (((Min (chan_h ` set Q), Min (chan_s ` set Q), Min (chan_v ` set Q)),
                    (Max (chan_h ` set Q), Max (chan_s ` set Q), Max (chan_v ` set Q))), []))"
  using assms
  by (simp add: get_hsv_range_def scan_image_interval Let_def hd_sort_Min last_sort_Max
      uint_Min_map uint_Max_map chan_h_def chan_s_def chan_v_def)

lemma demo_qualifying:
  "qualifying_pixels 90 110 [[(100, 50, 200), (20, 0, 255)], [(105, 150, 80), (200, 9, 9)]] =
     [(100, 50, 200), (105, 150, 80)]"
  by (simp add: qualifying_pixels_def)

text \<open>
  Claim C2. When at least one pixel of the HSV image has its hue in the interval
  [hueLow, hueHigh], \<open>get_hsv_range\<close> returns, without printing, the pair whose lower
  bound holds the minimum hue, the minimum saturation and the minimum value and whose
  upper bound holds the three maxima, each taken on its own over exactly the
  qualifying pixels.
\<close>

theorem get_hsv_range_bounding_box:
  assumes "hsv_image self = Some img" and "hue_range self = [hueLow, hueHigh]"
    and "qualifying_pixels hueLow hueHigh img \<noteq> []"
  shows "get_hsv_range self =
     Inr (((Min (chan_h ` set (qualifying_pixels hueLow hueHigh img)),
            Min (chan_s ` set (qualifying_pixels hueLow hueHigh img)),
            Min (chan_v ` set (qualifying_pixels hueLow hueHigh img))),
           (Max (chan_h ` set (qualifying_pixels hueLow hueHigh img)),
            Max (chan_s ` set (qualifying_pixels hueLow hueHigh img)),
            Max (chan_v ` set (qualifying_pixels hueLow hueHigh img)))), [])"
  using get_hsv_range_interval [OF assms(1,2)] assms(3) by (simp add: Let_def)

text \<open>
  The qualifying pixels (100, 50, 200) and (105, 150, 80) give the bounds
  (100, 50, 80) and (105, 150, 200): neither corner of the box is a pixel of the image.
\<close>

theorem get_hsv_range_bounding_box_witness:
  "hsv_image demo_session = Some [[(100, 50, 200), (20, 0, 255)], [(105, 150, 80), (200, 9, 9)]]
   \<and> hue_range demo_session = [90, 110]
   \<and> qualifying_pixels 90 110 [[(100, 50, 200), (20, 0, 255)], [(105, 150, 80), (200, 9, 9)]] =
       [(100, 50, 200), (105, 150, 80)]
   \<and> get_hsv_range demo_session = Inr (((100, 50, 80), (105, 150, 200)), [])"
proof -
  have h1: "hsv_image demo_session = Some [[(100, 50, 200), (20, 0, 255)], [(105, 150, 80), (200, 9, 9)]]"
    and h2: "hue_range demo_session = [90, 110]"
    by (simp_all add: demo_session_def)
  have h3: "qualifying_pixels 90 110 [[(100, 50, 200), (20, 0, 255)], [(105, 150, 80), (200, 9, 9)]] \<noteq> []"
    by (simp add: demo_qualifying)
  show ?thesis
    using get_hsv_range_bounding_box [OF h1 h2 h3] h1 h2
    by (simp add: demo_qualifying chan_h_def chan_s_def chan_v_def)
qed

text \<open>
  Claim C6. When no pixel of the HSV image has its hue in the interval,
  \<open>get_hsv_range\<close> raises nothing: it prints the diagnostic message and returns the
  all-zero range ((0, 0, 0), (0, 0, 0)).
\<close>

theorem get_hsv_range_no_data:
  assumes "hsv_image self = Some img" and "hue_range self = [hueLow, hueHigh]"
    and "qualifying_pixels hueLow hueHigh img = []"
  shows "get_hsv_range self =
     Inr (((0, 0, 0), (0, 0, 0)), [Printed ''Invalid expected hsv range. Try again''])"
  using get_hsv_range_interval [OF assms(1,2)] assms(3) by (simp add: Let_def)

theorem get_hsv_range_no_data_witness:
  "hsv_image (demo_session\<lparr>hue_range := [30, 40]\<rparr>) =
       Some [[(100, 50, 200), (20, 0, 255)], [(105, 150, 80), (200, 9, 9)]]
   \<and> hue_range (demo_session\<lparr>hue_range := [30, 40]\<rparr>) = [30, 40]
   \<and> qualifying_pixels 30 40 [[(100, 50, 200), (20, 0, 255)], [(105, 150, 80), (200, 9, 9)]] = []
   \<and> get_hsv_range (demo_session\<lparr>hue_range := [30, 40]\<rparr>) =
       Inr (((0, 0, 0), (0, 0, 0)), [Printed ''Invalid expected hsv range. Try again''])"
proof -
  have h1: "hsv_image (demo_session\<lparr>hue_range := [30, 40]\<rparr>) =
       Some [[(100, 50, 200), (20, 0, 255)], [(105, 150, 80), (200, 9, 9)]]"
    and h2: "hue_range (demo_session\<lparr>hue_range := [30, 40]\<rparr>) = [30, 40]"
    by (simp_all add: demo_session_def)
  have h3: "qualifying_pixels 30 40 [[(100, 50, 200), (20, 0, 255)], [(105, 150, 80), (200, 9, 9)]] = []"
    by (simp add: qualifying_pixels_def)
  show ?thesis
    using get_hsv_range_no_data [OF h1 h2 h3] h1 h2 h3 by blast
qed

text \<open>
  Claim C10. When at least one pixel qualifies, the range returned by
  \<open>get_hsv_range\<close> has its lower bound at most its upper bound in every channel,
  hue included. Hence \<open>find_contours\<close> called with it does not fail either of its two
  ordering assertions, and its mask is the single inclusive range for every image (the
  branch for a hue that does not wrap).
\<close>

theorem get_hsv_range_ordered:
  assumes "hsv_image self = Some img" and "hue_range self = [hueLow, hueHigh]"
    and "qualifying_pixels hueLow hueHigh img \<noteq> []"
  shows "\<exists>lh ls lv uh us uv.
           get_hsv_range self = Inr (((lh, ls, lv), (uh, us, uv)), [])
           \<and> lh \<le> uh \<and> ls \<le> us \<and> lv \<le> uv
           \<and> check_bounds (lh, ls, lv) (uh, us, uv) \<noteq> Some (AssertionError SaturationOrder)
           \<and> check_bounds (lh, ls, lv) (uh, us, uv) \<noteq> Some (AssertionError ValueOrder)
           \<and> (\<forall>hsv_img. build_mask hsv_img (lh, ls, lv) (uh, us, uv) =
                           inRange hsv_img (lh, ls, lv) (uh, us, uv))"
proof -
  let ?Q = "qualifying_pixels hueLow hueHigh img"
  have le: "\<And>f :: pixel \<Rightarrow> int. Min (f ` set ?Q) \<le> Max (f ` set ?Q)"
    using assms(3) by (rule Min_le_Max_list)
  show ?thesis
    using get_hsv_range_interval [OF assms(1,2)] assms(3) le [of chan_h] le [of chan_s] le [of chan_v]
    by (simp add: Let_def)
qed

theorem get_hsv_range_ordered_witness:
  "hsv_image demo_session = Some [[(100, 50, 200), (20, 0, 255)], [(105, 150, 80), (200, 9, 9)]]
   \<and> hue_range demo_session = [90, 110]
   \<and> qualifying_pixels 90 110 [[(100, 50, 200), (20, 0, 255)], [(105, 150, 80), (200, 9, 9)]] \<noteq> []
   \<and> (\<exists>lh ls lv uh us uv.
           get_hsv_range demo_session = Inr (((lh, ls, lv), (uh, us, uv)), [])
           \<and> lh \<le> uh \<and> ls \<le> us \<and> lv \<le> uv
           \<and> check_bounds (lh, ls, lv) (uh, us, uv) \<noteq> Some (AssertionError SaturationOrder)
           \<and> check_bounds (lh, ls, lv) (uh, us, uv) \<noteq> Some (AssertionError ValueOrder)
           \<and> (\<forall>hsv_img. build_mask hsv_img (lh, ls, lv) (uh, us, uv) =
                           inRange hsv_img (lh, ls, lv) (uh, us, uv)))"
proof -
  have h1: "hsv_image demo_session = Some [[(100, 50, 200), (20, 0, 255)], [(105, 150, 80), (200, 9, 9)]]"
    and h2: "hue_range demo_session = [90, 110]"
    by (simp_all add: demo_session_def)
  have h3: "qualifying_pixels 90 110 [[(100, 50, 200), (20, 0, 255)], [(105, 150, 80), (200, 9, 9)]] \<noteq> []"
    by (simp add: demo_qualifying)
  show ?thesis
    using get_hsv_range_ordered [OF h1 h2 h3] h1 h2 h3 by blast
qed

section \<open>Properties of crop_image\<close>

lemma py_slice_empty: "0 \<le> j \<Longrightarrow> j \<le> i \<Longrightarrow> py_slice xs i j = []"
  by (simp add: py_slice_def slice_index_def Let_def)

text \<open>
  Claim C7. The crop is to be normalized for all four drag directions. The callback
  compares only the vertical coordinates and then orders both axes the same way, so
  a drag whose horizontal and vertical directions differ is not normalized. Pressing
  at (50, 10) and releasing at (10, 50) slices the columns from 53 to 7, and pressing
  at (10, 50) and releasing at (50, 10) does the same: on every image each row of the
  crop is empty, where the normalized rectangle with its inset of 3 spans the columns
  13 to 47.
\<close>

theorem crop_image_mixed_drag_empty:
  "image_bgr (fst (crop_image cv EVENT_LBUTTONUP 10 50 (self\<lparr>mouse_x := 50, mouse_y := 10\<rparr>))) =
     map (\<lambda>row. []) (py_slice (rectangle cv (image_bgr self) (50, 10) (10, 50) (0, 255, 255) 2) 13 47)
   \<and> image_bgr (fst (crop_image cv EVENT_LBUTTONUP 50 10 (self\<lparr>mouse_x := 10, mouse_y := 50\<rparr>))) =
     map (\<lambda>row. []) (py_slice (rectangle cv (image_bgr self) (10, 50) (50, 10) (0, 255, 255) 2) 13 47)"
  by (simp add: np_slice_def py_slice_empty Let_def split: sum.split)

section \<open>Properties of the frame loop\<close>

lemma crop_image_keeps_range:
  "current_hsv_range (fst (crop_image cv ev x y self)) = current_hsv_range self"
  by (cases ev) (simp_all add: Let_def split: sum.split)

lemma dispatch_keeps_range:
  "current_hsv_range (dispatch cv pending self) = current_hsv_range self"
  by (induction pending arbitrary: self) (auto simp: crop_image_keeps_range)

text \<open>
  While no range is held, the pipeline stores what the estimator returns.
\<close>

lemma refresh_pipeline_estimates:
  assumes "current_hsv_range self = None" and "get_hsv_range self = Inr (r, printed)"
  shows "current_hsv_range (fst (refresh_pipeline cv self)) = Some r"
  using assms by (simp add: refresh_pipeline_def Let_def split: sum.split)

text \<open>
  With a range held, the pipeline is a function of that range, the display copy and
  the library alone: the estimator takes no part in it.
\<close>

lemma refresh_pipeline_cached:
  assumes "current_hsv_range self = Some r"
  shows "refresh_pipeline cv self =
     (case find_contours cv (cache self) (fst r) (snd r) of
        Inl e \<Rightarrow> (self, [PrintedRange r], Some e)
      | Inr list_contours \<Rightarrow>
          (self\<lparr>cache := fst (draw_contour cv (cache self)
                                 (get_largest_contour (contourArea cv) list_contours 30) [0, 255, 0])\<rparr>,
           [PrintedRange r],
           snd (draw_contour cv (cache self)
                  (get_largest_contour (contourArea cv) list_contours 30) [0, 255, 0])))"
proof -
  have "self\<lparr>current_hsv_range := Some r\<rparr> = self" using assms by simp
  then show ?thesis
    using assms by (simp add: refresh_pipeline_def Let_def split: sum.split)
qed

lemma refresh_pipeline_keeps_range:
  assumes "current_hsv_range self = Some r"
  shows "current_hsv_range (fst (refresh_pipeline cv self)) = Some r"
  using assms by (simp add: refresh_pipeline_cached split: sum.split)

lemma refresh_keeps_range:
  assumes "current_hsv_range self = Some r"
  shows "current_hsv_range (fst (refresh cv pending key self)) = Some r"
proof -
  let ?s1 = "self\<lparr>cache := image_bgr self\<rparr>"
  have c: "current_hsv_range ?s1 = Some r" using assms by simp
  obtain s2 out res where p: "refresh_pipeline cv ?s1 = (s2, out, res)"
    by (cases "refresh_pipeline cv ?s1") auto
  have "current_hsv_range s2 = Some r"
    using refresh_pipeline_keeps_range [OF c, of cv] p by simp
  then show ?thesis
    using c p by (cases res) (auto simp: refresh_def Let_def dispatch_keeps_range)
qed

lemma run_keeps_range:
  assumes "current_hsv_range self = Some r"
  shows "current_hsv_range (fst (run cv frames self)) = Some r"
  using assms
proof (induction frames arbitrary: self)
  case Nil
  then show ?case by simp
next
  case (Cons f frames)
  obtain pending key where f: "f = (pending, key)" by (cases f) auto
  obtain s1 out res where r1: "refresh cv pending key self = (s1, out, res)"
    by (cases "refresh cv pending key self") auto
  have k: "current_hsv_range s1 = Some r"
    using refresh_keeps_range [OF Cons.prems, of cv pending key] r1 by simp
  show ?case
  proof (cases res)
    case (Inl e)
    then show ?thesis using f r1 k by simp
  next
    case (Inr b)
    show ?thesis
    proof (cases b)
      case True
      obtain s2 out2 r2 where r2: "run cv frames s1 = (s2, out2, r2)"
        by (cases "run cv frames s1") auto
      have "current_hsv_range s2 = Some r" using Cons.IH [OF k] r2 by simp
      then show ?thesis using f r1 Inr True r2 by simp
    next
      case False
      then show ?thesis using f r1 Inr k by simp
    qed
  qed
qed

lemma cropped_demo:
  "crop_image demo_cv EVENT_LBUTTONUP 7 7 cached_session =
     (cached_session\<lparr>image_bgr := [[(100, 100, 100)]], hsv_image := Some [[(100, 100, 100)]]\<rparr>, None)"
  by (simp add: cached_session_def demo_cv_def np_slice_def py_slice_def slice_index_def Let_def
      eval_nat_numeral)

text \<open>
  Claim C8, as stated, has a new region selection clear the cached range so that the
  next frame estimates it again. It does not: in a session that holds the range
  ((20, 20, 20), (20, 20, 20)), a drag from (0, 0) released at (7, 7) selects the pixel
  (100, 100, 100), for which the estimator returns ((100, 100, 100), (100, 100, 100));
  the held range is the old one after the release, and still after the next frame.
\<close>

theorem selection_keeps_cached_range:
  "current_hsv_range (fst (crop_image demo_cv EVENT_LBUTTONUP 7 7 cached_session)) =
     Some ((20, 20, 20), (20, 20, 20))
   \<and> get_hsv_range (fst (crop_image demo_cv EVENT_LBUTTONUP 7 7 cached_session)) =
     Inr (((100, 100, 100), (100, 100, 100)), [])
   \<and> current_hsv_range
       (fst (refresh demo_cv [] 0 (fst (crop_image demo_cv EVENT_LBUTTONUP 7 7 cached_session)))) =
     Some ((20, 20, 20), (20, 20, 20))"
  unfolding cropped_demo
  by (simp add: cached_session_def get_hsv_range_def qualifies_def py_index_def
      refresh_def refresh_pipeline_def find_contours_def demo_cv_def Let_def
      get_largest_contour_def draw_contour_def)

text \<open>
  Claim C8, amended. Once the session holds a range, whether the estimator computed it
  in an earlier frame or it was set by hand, it stays: no mouse event, a release that
  selects a new region included, changes it; the pipeline of a frame uses it as it is
  and makes no call to the estimator; and it is the range held after every frame and
  after any run of frames with their mouse events.
\<close>

theorem held_range_is_reused:
  assumes "current_hsv_range self = Some r"
  shows "current_hsv_range (fst (crop_image cv ev x y self)) = Some r
       \<and> refresh_pipeline cv self =
           (case find_contours cv (cache self) (fst r) (snd r) of
              Inl e \<Rightarrow> (self, [PrintedRange r], Some e)
            | Inr list_contours \<Rightarrow>
                (self\<lparr>cache := fst (draw_contour cv (cache self)
                                       (get_largest_contour (contourArea cv) list_contours 30) [0, 255, 0])\<rparr>,
                 [PrintedRange r],
                 snd (draw_contour cv (cache self)
                        (get_largest_contour (contourArea cv) list_contours 30) [0, 255, 0])))
       \<and> current_hsv_range (fst (refresh cv pending key self)) = Some r
       \<and> current_hsv_range (fst (run cv frames self)) = Some r"
  using assms crop_image_keeps_range [of cv ev x y self] refresh_pipeline_cached [OF assms, of cv]
    refresh_keeps_range [OF assms, of cv pending key] run_keeps_range [OF assms, of cv frames]
  by simp

theorem held_range_is_reused_witness:
  "current_hsv_range cached_session = Some ((20, 20, 20), (20, 20, 20))
   \<and> current_hsv_range (fst (crop_image demo_cv EVENT_LBUTTONUP 7 7 cached_session)) =
       Some ((20, 20, 20), (20, 20, 20))
   \<and> current_hsv_range
       (fst (run demo_cv [([(EVENT_LBUTTONDOWN, 0, 0), (EVENT_LBUTTONUP, 7, 7)], 0), ([], 113)]
               cached_session)) = Some ((20, 20, 20), (20, 20, 20))"
proof -
  have h: "current_hsv_range cached_session = Some ((20, 20, 20), (20, 20, 20))"
    by (simp add: cached_session_def)
  show ?thesis
    using held_range_is_reused [OF h, of demo_cv EVENT_LBUTTONUP 7 7 "[]" 0
        "[([(EVENT_LBUTTONDOWN, 0, 0), (EVENT_LBUTTONUP, 7, 7)], 0), ([], 113)]"] h
    by blast
qed

section \<open>Properties of the entry point\<close>

text \<open>
  Claim C9. Both constructor calls of \<open>main.py\<close> are to succeed. Each passes three
  positional arguments to a constructor that declares two, so each raises
  \<open>TypeError\<close>, whatever the image file holds: neither the call with the manual HSV
  range and \<open>True\<close> nor the call with the expected hue interval and \<open>False\<close>
  constructs a session. The two-argument call made by \<open>color_finder.py\<close> itself
  does run the constructor.
\<close>

theorem main_constructions_raise:
  "main_manual imread = Inl TypeError
   \<and> main_estimate imread = Inl TypeError
   \<and> module_color_finder imread = ColorFinder_init (imread ''resources/purpleLine2.png'') [110, 150]"
  by (simp add: main_manual_def main_estimate_def module_color_finder_def ColorFinder_call_def)

end
